theory Spec2Isabelle
  imports Main "HOL-Library.Word"
begin

unbundle bit_operations_syntax

section \<open>Batch codec: byte-at-a-time CFB with a rolling IV\<close>

type_synonym byte = "8 word"

text \<open>Go run-time panics that the modelled functions can raise.\<close>

datatype panic = NilDereference | IndexOutOfRange | SliceBounds | CFBIVLength | TypeAssertion

text \<open>
  \<open>data.EncryptCipher\<close> and \<open>data.DecryptCipher\<close> are \<open>cipher.Block\<close> values (AES, block
  size 16). A block is represented by its \<open>Encrypt\<close> function; both CFB directions of
  \<open>crypto/cipher\<close> call \<open>Encrypt\<close> only.
\<close>

type_synonym Block = "byte list \<Rightarrow> byte list"

definition BlockSize :: nat where
  "BlockSize = 16"

text \<open>
  The fields of \<open>utils.EncryptionData\<close> that \<open>encrypt\<close> and \<open>decrypt\<close> read and write.
  The two IVs are values here: the slices are taken not to share a backing array.
\<close>

record EncryptionData =
  EncryptCipher :: Block
  EncryptIV :: "byte list"
  DecryptCipher :: Block
  DecryptIV :: "byte list"

text \<open>
  \<open>cipher.NewCFBEncrypter(block, iv)\<close> (and \<open>NewCFBDecrypter\<close>) followed by
  \<open>XORKeyStream\<close> on a one-byte slice: the constructor panics unless the IV has the block
  size; the fresh stream encrypts the IV into its zero-initialised \<open>out\<close> buffer and XORs
  the byte with \<open>out[0]\<close>.
\<close>

definition keystream_byte :: "Block \<Rightarrow> byte list \<Rightarrow> byte" where
  "keystream_byte E iv = (case E iv of [] \<Rightarrow> 0 | k # _ \<Rightarrow> k)"

definition XORKeyStream1 :: "Block \<Rightarrow> byte list \<Rightarrow> byte \<Rightarrow> panic + byte" where
  "XORKeyStream1 E iv b =
     (if length iv \<noteq> BlockSize then Inl CFBIVLength else Inr (b XOR keystream_byte E iv))"

text \<open>
  The loop of \<open>encrypt\<close>: \<open>for i := range d\<close>. Each byte is replaced by its ciphertext and
  \<open>data.EncryptIV = append(data.EncryptIV[1:], d[i])\<close> appends that ciphertext byte.
  The result is the ciphertext and the final IV.
\<close>

fun encrypt_loop :: "Block \<Rightarrow> byte list \<Rightarrow> byte list \<Rightarrow> panic + (byte list \<times> byte list)" where
  "encrypt_loop E iv [] = Inr ([], iv)"
| "encrypt_loop E iv (p # ps) =
     (case XORKeyStream1 E iv p of
        Inl e \<Rightarrow> Inl e
      | Inr c \<Rightarrow>
          (case encrypt_loop E (tl iv @ [c]) ps of
             Inl e \<Rightarrow> Inl e
           | Inr (cs, iv') \<Rightarrow> Inr (c # cs, iv')))"

text \<open>
  The loop of \<open>decrypt\<close>: \<open>for i, b := range batch.raw\<close>. \<open>b\<close> is the ciphertext byte read
  before \<open>raw[i]\<close> is overwritten with the plaintext, and it is \<open>b\<close> that is appended to
  \<open>data.DecryptIV\<close>.
\<close>

fun decrypt_loop :: "Block \<Rightarrow> byte list \<Rightarrow> byte list \<Rightarrow> panic + (byte list \<times> byte list)" where
  "decrypt_loop E iv [] = Inr ([], iv)"
| "decrypt_loop E iv (b # bs) =
     (case XORKeyStream1 E iv b of
        Inl e \<Rightarrow> Inl e
      | Inr p \<Rightarrow>
          (case decrypt_loop E (tl iv @ [b]) bs of
             Inl e \<Rightarrow> Inl e
           | Inr (ps, iv') \<Rightarrow> Inr (p # ps, iv')))"

text \<open>
  \<open>encrypt(d)\<close>. \<open>data\<close> is the \<open>Data\<close> pointer of the session's encryption handler
  (\<open>None\<close> is nil: it is dereferenced in the first iteration only). \<open>ComputeSendChecksum\<close>
  belongs to the encryption handler, which is outside the modelled files; it is a
  parameter. The result is the returned slice and the updated encryption data.
\<close>

definition encrypt ::
  "(byte list \<Rightarrow> byte list) \<Rightarrow> EncryptionData option \<Rightarrow> byte list
     \<Rightarrow> panic + (byte list \<times> EncryptionData option)" where
  "encrypt ComputeSendChecksum data d =
     (let d' = d @ ComputeSendChecksum d in
      case data of
        None \<Rightarrow> (if d' = [] then Inr ([], None) else Inl NilDereference)
      | Some dat \<Rightarrow>
          (case encrypt_loop (EncryptCipher dat) (EncryptIV dat) d' of
             Inl e \<Rightarrow> Inl e
           | Inr (c, iv) \<Rightarrow> Inr (c, Some (dat\<lparr>EncryptIV := iv\<rparr>))))"

text \<open>
  \<open>decrypt()\<close> on \<open>batch.raw\<close>. A panic can only happen in the first iteration (nil
  \<open>Data\<close>, or an IV of the wrong length, which \<open>append(iv[1:], b)\<close> never repairs or
  breaks), so a panicking run has changed nothing.
\<close>

definition decrypt ::
  "EncryptionData option \<Rightarrow> byte list \<Rightarrow> panic + (byte list \<times> EncryptionData option)" where
  "decrypt data raw =
     (case data of
        None \<Rightarrow> (if raw = [] then Inr ([], None) else Inl NilDereference)
      | Some dat \<Rightarrow>
          (case decrypt_loop (DecryptCipher dat) (DecryptIV dat) raw of
             Inl e \<Rightarrow> Inl e
           | Inr (p, iv) \<Rightarrow> Inr (p, Some (dat\<lparr>DecryptIV := iv\<rparr>))))"

section \<open>Batch codec: decoding a batch\<close>

text \<open>
  \<open>MinecraftPacketBatch\<close> embeds \<open>*binutils.Stream\<close> (library \<open>irmine/binutils\<close>). Its
  fields \<open>Buffer\<close> and \<open>Offset\<close> are read by \<open>Decode\<close> directly.
\<close>

record Stream =
  Buffer :: "byte list"
  Offset :: nat

definition McpeFlag :: byte where
  "McpeFlag = 0xFE"

text \<open>
  The stream methods \<open>Decode\<close> calls. \<open>GetByte\<close> returns the byte at the offset and
  advances by one; past the end the read is a Go index panic (which \<open>Decode\<close> recovers;
  were a zero byte returned there instead, \<open>Decode\<close> would leave at the marker test
  with the same packets). \<open>ResetStream\<close> empties the stream and \<open>SetBuffer\<close> replaces
  its buffer.
\<close>

definition GetByte :: "Stream \<Rightarrow> (panic \<times> Stream) + (byte \<times> Stream)" where
  "GetByte s =
     (if Offset s < length (Buffer s)
      then Inr (Buffer s ! Offset s, s\<lparr>Offset := Offset s + 1\<rparr>)
      else Inl (IndexOutOfRange, s))"

definition ResetStream :: "Stream \<Rightarrow> Stream" where
  "ResetStream s = s\<lparr>Buffer := [], Offset := 0\<rparr>"

definition SetBuffer :: "byte list \<Rightarrow> Stream \<Rightarrow> Stream" where
  "SetBuffer buf s = s\<lparr>Buffer := buf\<rparr>"

text \<open>
  \<open>Feof\<close> and \<open>GetLengthPrefixedBytes\<close> are taken as parameters: what the library does
  on a truncated record (a panic, carried here with the stream as it was left) is the
  library's business.
\<close>

record binutils =
  Feof :: "Stream \<Rightarrow> bool"
  GetLengthPrefixedBytes :: "Stream \<Rightarrow> (panic \<times> Stream) + (byte list \<times> Stream)"

text \<open>
  \<open>compress/zlib\<close> as a parameter: on a buffer, either \<open>zlib.NewReader\<close> fails, or
  \<open>ioutil.ReadAll\<close> returns the bytes read and whether it returned an error.
\<close>

datatype zlib_result = NewReaderError | ReadAll "byte list" bool

type_synonym zlib = "byte list \<Rightarrow> zlib_result"

text \<open>
  \<open>decompress()\<close>: the new value of \<open>batch.raw\<close> and whether the returned error is
  non-nil. On a \<open>NewReader\<close> error \<open>raw\<close> is kept; otherwise \<open>raw\<close> is assigned what
  \<open>ReadAll\<close> returned, error or not. (A nil reader with a nil error does not occur.)
\<close>

definition decompress :: "zlib \<Rightarrow> byte list \<Rightarrow> byte list \<times> bool" where
  "decompress z raw =
     (case z raw of
        NewReaderError \<Rightarrow> (raw, True)
      | ReadAll data err \<Rightarrow> (data, err))"

text \<open>
  What the batch code reaches through \<open>batch.session\<close>: the encryption handler's \<open>Data\<close>
  pointer, \<open>UsesEncryption()\<close>, and the packet manager's \<open>IsPacketRegistered\<close>. A fetched
  packet is the pair of its ID (the registered type \<open>GetPacket\<close> constructs) and the
  buffer given to \<open>SetBuffer\<close>.
\<close>

record BatchSession =
  Data :: "EncryptionData option"
  UsesEncryption :: bool
  IsPacketRegistered :: "nat \<Rightarrow> bool"

type_synonym packet = "nat \<times> byte list"

record MinecraftPacketBatch =
  stream :: Stream
  raw :: "byte list"
  packets :: "packet list"
  session :: "BatchSession option"
  needsEncryption :: bool

definition NewMinecraftPacketBatch :: "BatchSession option \<Rightarrow> MinecraftPacketBatch" where
  "NewMinecraftPacketBatch sess =
     \<lparr>stream = \<lparr>Buffer = [], Offset = 0\<rparr>, raw = [], packets = [], session = sess,
      needsEncryption = (case sess of None \<Rightarrow> False | Some s \<Rightarrow> UsesEncryption s)\<rparr>"

text \<open>
  \<open>fetchPackets(packetData)\<close>: empty records and unregistered IDs are skipped. A nil
  session panics at the first non-empty record. The result is \<open>batch.packets\<close>.
\<close>

fun fetchPackets ::
  "BatchSession option \<Rightarrow> byte list list \<Rightarrow> packet list \<Rightarrow> (panic \<times> packet list) + packet list" where
  "fetchPackets sess [] pkts = Inr pkts"
| "fetchPackets sess ([] # ds) pkts = fetchPackets sess ds pkts"
| "fetchPackets None ((i # d) # ds) pkts = Inl (NilDereference, pkts)"
| "fetchPackets (Some s) ((i # d) # ds) pkts =
     (if \<not> IsPacketRegistered s (unat i) then fetchPackets (Some s) ds pkts
      else fetchPackets (Some s) ds (pkts @ [(unat i, i # d)]))"

text \<open>
  The loop \<open>for !batch.Feof() { packetData = append(packetData, batch.GetLengthPrefixedBytes()) }\<close>.
  With the library as a parameter the loop need not end: \<open>None\<close> is a run that never
  returns.
\<close>

partial_function (option) read_packetData ::
  "binutils \<Rightarrow> Stream \<Rightarrow> byte list list
     \<Rightarrow> ((panic \<times> Stream) + (byte list list \<times> Stream)) option" where
  "read_packetData lib s acc =
     (if Feof lib s then Some (Inr (acc, s))
      else (case GetLengthPrefixedBytes lib s of
              Inl e \<Rightarrow> Some (Inl e)
            | Inr (d, s') \<Rightarrow> read_packetData lib s' (acc @ [d])))"

declare read_packetData.simps [code]

text \<open>
  How a block of statements of \<open>Decode\<close> ends: with a panic (which the deferred
  \<open>recover\<close> turns into a normal return), with \<open>return\<close>, or by falling through to the
  next statement. Each carries the batch as it then is.
\<close>

datatype flow = Panicked panic MinecraftPacketBatch
  | Returned MinecraftPacketBatch
  | Next MinecraftPacketBatch

text \<open>
  The first statements of \<open>Decode\<close>, up to and including \<open>batch.decrypt()\<close>.
  \<open>batch.raw = batch.Buffer[batch.Offset:]\<close> aliases the buffer, so the in-place
  decryption of \<open>raw\<close> rewrites the tail of \<open>Buffer\<close> as well.
\<close>

definition Decode_head :: "MinecraftPacketBatch \<Rightarrow> flow" where
  "Decode_head b =
     (case GetByte (stream b) of
        Inl (e, s) \<Rightarrow> Panicked e (b\<lparr>stream := s\<rparr>)
      | Inr (mcpeFlag, s) \<Rightarrow>
          if mcpeFlag \<noteq> McpeFlag then Returned (b\<lparr>stream := s\<rparr>)
          else if length (Buffer s) < Offset s then Panicked SliceBounds (b\<lparr>stream := s\<rparr>)
          else
            let b1 = b\<lparr>stream := s, raw := drop (Offset s) (Buffer s)\<rparr> in
            if needsEncryption b1 then
              (case session b1 of
                 None \<Rightarrow> Panicked NilDereference b1
               | Some sess \<Rightarrow>
                   (case decrypt (Data sess) (raw b1) of
                      Inl e \<Rightarrow> Panicked e b1
                    | Inr (p, data') \<Rightarrow>
                        Next (b1\<lparr>raw := p,
                                 stream := s\<lparr>Buffer := take (Offset s) (Buffer s) @ p\<rparr>,
                                 session := Some (sess\<lparr>Data := data'\<rparr>)\<rparr>)))
            else Next b1)"

text \<open>
  \<open>Decode()\<close>. The deferred function recovers every panic, so \<open>Decode\<close> returns normally
  with the batch as the panic left it. \<open>None\<close> only when the record loop never returns.
\<close>

definition Decode :: "binutils \<Rightarrow> zlib \<Rightarrow> MinecraftPacketBatch \<Rightarrow> MinecraftPacketBatch option" where
  "Decode lib z b =
     (case Decode_head b of
        Panicked e b' \<Rightarrow> Some b'
      | Returned b' \<Rightarrow> Some b'
      | Next b2 \<Rightarrow>
          (case decompress z (raw b2) of
             (raw', True) \<Rightarrow> Some (b2\<lparr>raw := raw'\<rparr>)
           | (raw', False) \<Rightarrow>
               (case read_packetData lib (SetBuffer raw' (ResetStream (stream b2))) [] of
                  None \<Rightarrow> None
                | Some (Inl (e, s)) \<Rightarrow> Some (b2\<lparr>raw := raw', stream := s\<rparr>)
                | Some (Inr (packetData, s)) \<Rightarrow>
                    (case fetchPackets (session b2) packetData (packets b2) of
                       Inl (e, pkts) \<Rightarrow> Some (b2\<lparr>raw := raw', stream := s, packets := pkts\<rparr>)
                     | Inr pkts \<Rightarrow> Some (b2\<lparr>raw := raw', stream := s, packets := pkts\<rparr>)))))"

section \<open>Session manager\<close>

text \<open>
  \<open>MinecraftSession\<close> is declared outside the modelled files. A session is represented
  by the identity of its pointer and by what its accessors return: \<open>GetName()\<close>,
  \<open>GetPlayer().GetName()\<close> (\<open>None\<close> when the player is nil, where the call panics),
  \<open>GetUUID()\<close>, \<open>GetXUID()\<close> and \<open>fmt.Sprint(session.GetSession())\<close>.
\<close>

type_synonym UUID = "byte list"

record MinecraftSession =
  ptr :: nat
  GetName :: string
  GetPlayer_GetName :: "string option"
  GetUUID :: UUID
  GetXUID :: string
  Sprint_GetSession :: string

text \<open>The four maps of the manager. The mutex is not modelled: calls are sequential.\<close>

record SessionManager =
  nameMap :: "string \<rightharpoonup> MinecraftSession"
  uuidMap :: "UUID \<rightharpoonup> MinecraftSession"
  xuidMap :: "string \<rightharpoonup> MinecraftSession"
  sessionMap :: "string \<rightharpoonup> MinecraftSession"

definition NewSessionManager :: SessionManager where
  "NewSessionManager =
     \<lparr>nameMap = Map.empty, uuidMap = Map.empty, xuidMap = Map.empty, sessionMap = Map.empty\<rparr>"

definition AddMinecraftSession :: "SessionManager \<Rightarrow> MinecraftSession \<Rightarrow> SessionManager" where
  "AddMinecraftSession manager sess =
     manager\<lparr>nameMap := (nameMap manager)(GetName sess \<mapsto> sess),
              uuidMap := (uuidMap manager)(GetUUID sess \<mapsto> sess),
              xuidMap := (xuidMap manager)(GetXUID sess \<mapsto> sess),
              sessionMap := (sessionMap manager)(Sprint_GetSession sess \<mapsto> sess)\<rparr>"

text \<open>
  \<open>RemoveMinecraftSession\<close>: nothing for a nil session; the name key is
  \<open>session.GetPlayer().GetName()\<close>, not \<open>session.GetName()\<close>.
\<close>

definition RemoveMinecraftSession ::
  "SessionManager \<Rightarrow> MinecraftSession option \<Rightarrow> panic + SessionManager" where
  "RemoveMinecraftSession manager sess =
     (case sess of
        None \<Rightarrow> Inr manager
      | Some s \<Rightarrow>
          (case GetPlayer_GetName s of
             None \<Rightarrow> Inl NilDereference
           | Some n \<Rightarrow>
               Inr (manager\<lparr>nameMap := (nameMap manager)(n := None),
                            uuidMap := (uuidMap manager)(GetUUID s := None),
                            xuidMap := (xuidMap manager)(GetXUID s := None),
                            sessionMap := (sessionMap manager)(Sprint_GetSession s := None)\<rparr>)))"

definition GetSessionCount :: "SessionManager \<Rightarrow> nat" where
  "GetSessionCount manager = card (dom (nameMap manager))"

definition GetSession :: "SessionManager \<Rightarrow> string \<Rightarrow> MinecraftSession option" where
  "GetSession manager name = nameMap manager name"

text \<open>
  A sequence of calls on a manager, run from a given manager together with the set of
  live sessions (those added and not removed since). A panic ends the run.
\<close>

datatype manager_call = Add MinecraftSession | Remove "MinecraftSession option"

fun manager_step ::
  "SessionManager \<times> MinecraftSession set \<Rightarrow> manager_call
     \<Rightarrow> panic + (SessionManager \<times> MinecraftSession set)" where
  "manager_step (m, live) (Add s) = Inr (AddMinecraftSession m s, insert s live)"
| "manager_step (m, live) (Remove None) = Inr (m, live)"
| "manager_step (m, live) (Remove (Some s)) =
     (case RemoveMinecraftSession m (Some s) of
        Inl e \<Rightarrow> Inl e
      | Inr m' \<Rightarrow> Inr (m', live - {s}))"

fun manager_run ::
  "SessionManager \<times> MinecraftSession set \<Rightarrow> manager_call list
     \<Rightarrow> panic + (SessionManager \<times> MinecraftSession set)" where
  "manager_run st [] = Inr st"
| "manager_run st (c # cs) =
     (case manager_step st c of
        Inl e \<Rightarrow> Inl e
      | Inr st' \<Rightarrow> manager_run st' cs)"

text \<open>
  Coherence of one index: it holds exactly the live sessions, each under its own key
  (so no two live sessions share a key); and of the manager: all four indices.
\<close>

definition index_coherent ::
  "('k \<rightharpoonup> MinecraftSession) \<Rightarrow> (MinecraftSession \<Rightarrow> 'k) \<Rightarrow> MinecraftSession set \<Rightarrow> bool" where
  "index_coherent idx key live = (\<forall>k s. idx k = Some s \<longleftrightarrow> s \<in> live \<and> key s = k)"

definition coherent :: "SessionManager \<Rightarrow> MinecraftSession set \<Rightarrow> bool" where
  "coherent m live =
     (index_coherent (nameMap m) GetName live
    \<and> index_coherent (uuidMap m) GetUUID live
    \<and> index_coherent (xuidMap m) GetXUID live
    \<and> index_coherent (sessionMap m) Sprint_GetSession live)"

text \<open>
  The condition under which a call keeps the manager coherent: each key of the session is
  unused or held by that very session, and its two names agree. A sequence is admissible
  when this holds for every call at the moment it is made.
\<close>

definition keys_own :: "SessionManager \<Rightarrow> MinecraftSession \<Rightarrow> bool" where
  "keys_own m s =
     (nameMap m (GetName s) \<in> {None, Some s}
    \<and> uuidMap m (GetUUID s) \<in> {None, Some s}
    \<and> xuidMap m (GetXUID s) \<in> {None, Some s}
    \<and> sessionMap m (Sprint_GetSession s) \<in> {None, Some s}
    \<and> GetPlayer_GetName s = Some (GetName s))"

fun admissible :: "SessionManager \<times> MinecraftSession set \<Rightarrow> manager_call list \<Rightarrow> bool" where
  "admissible st [] = True"
| "admissible st (Remove None # cs) = admissible st cs"
| "admissible st (Add s # cs) =
     (keys_own (fst st) s \<and>
      (case manager_step st (Add s) of Inl e \<Rightarrow> False | Inr st' \<Rightarrow> admissible st' cs))"
| "admissible st (Remove (Some s) # cs) =
     (keys_own (fst st) s \<and>
      (case manager_step st (Remove (Some s)) of Inl e \<Rightarrow> False | Inr st' \<Rightarrow> admissible st' cs))"

section \<open>Login: verifying the chain\<close>

text \<open>
  \<open>types.Chain\<close>: the fields \<open>VerifyLoginRequest\<close> reads. Times are Unix seconds
  (\<open>int64\<close> in the source; they are only compared, so \<open>int\<close> loses nothing).
\<close>

record ChainHeader =
  X5u :: string
  Header_Raw :: string

record ChainPayload =
  Payload_Raw :: string
  ExpirationTime :: int
  NotBefore :: int
  IssuedAt :: int
  IdentityPublicKey :: string

record Chain =
  Header :: ChainHeader
  Payload :: ChainPayload
  Signature :: string

text \<open>
  The Go standard library and the environment, as parameters: base64 decoding (its error
  is only logged), \<open>x509.ParsePKIXPublicKey\<close> (an error, an ECDSA key, or a key of
  another kind, on which the type assertion \<open>key.(*ecdsa.PublicKey)\<close> panics), SHA-384,
  \<open>ecdsa.Verify\<close> on the two halves of the signature, \<open>time.Now().Unix()\<close> at its
  \<open>n\<close>-th call, and the constant \<open>data.MojangPublicKey\<close>.
\<close>

datatype 'pub parsed_key = ParseError | ECDSA 'pub | OtherKey

record 'pub crypto =
  DecodeString :: "string \<Rightarrow> string"
  ParsePKIXPublicKey :: "string \<Rightarrow> 'pub parsed_key"
  Sum384 :: "string \<Rightarrow> string"
  Verify :: "'pub \<Rightarrow> string \<Rightarrow> string \<Rightarrow> string \<Rightarrow> bool"
  Now :: "nat \<Rightarrow> int"
  MojangPublicKey :: string

text \<open>
  The outcome of \<open>VerifyLoginRequest\<close>: a panic, or the three named results
  \<open>(successful, authenticated, clientPublicKey)\<close>. A bare \<open>return\<close> returns the named
  results as they then are.
\<close>

datatype 'pub verify_result = VPanic panic | VReturn bool bool "'pub option"

text \<open>
  The loop over the chain either leaves the function, or completes with the current
  \<open>publicKeyRaw\<close> and \<open>authenticated\<close>. \<open>verify_step\<close> is the loop body for one
  token (\<open>Completed\<close>: on to the next token); \<open>n\<close> counts the tokens before it, each of
  which read the clock once.
\<close>

datatype 'pub loop_result = Exit "'pub verify_result" | Completed string bool

definition verify_step ::
  "'pub crypto \<Rightarrow> nat \<Rightarrow> string \<Rightarrow> bool \<Rightarrow> Chain \<Rightarrow> 'pub loop_result" where
  "verify_step L n publicKeyRaw authenticated chain =
     (if publicKeyRaw = [] \<and> X5u (Header chain) = [] then Exit (VReturn False authenticated None)
      else
        let publicKeyRaw = (if publicKeyRaw = [] then X5u (Header chain) else publicKeyRaw);
            sig = Signature chain;
            d = Header_Raw (Header chain) @ ''.'' @ Payload_Raw (Payload chain)
        in case ParsePKIXPublicKey L (DecodeString L publicKeyRaw) of
             ParseError \<Rightarrow> Exit (VReturn False authenticated None)
           | OtherKey \<Rightarrow> Exit (VPanic TypeAssertion)
           | ECDSA publicKey \<Rightarrow>
               if \<not> Verify L publicKey (Sum384 L d)
                     (take (length sig div 2) sig) (drop (length sig div 2) sig)
               then Exit (VReturn False authenticated None)
               else
                 let authenticated = (if publicKeyRaw = MojangPublicKey L then True else authenticated);
                     t = Now L n
                 in if (ExpirationTime (Payload chain) \<le> t \<and> ExpirationTime (Payload chain) \<noteq> 0)
                       \<or> NotBefore (Payload chain) > t
                       \<or> IssuedAt (Payload chain) > ExpirationTime (Payload chain)
                    then Exit (VReturn False authenticated None)
                    else Completed (IdentityPublicKey (Payload chain)) authenticated)"

fun verify_loop ::
  "'pub crypto \<Rightarrow> nat \<Rightarrow> string \<Rightarrow> bool \<Rightarrow> Chain list \<Rightarrow> 'pub loop_result" where
  "verify_loop L n publicKeyRaw authenticated [] = Completed publicKeyRaw authenticated"
| "verify_loop L n publicKeyRaw authenticated (chain # rest) =
     (case verify_step L n publicKeyRaw authenticated chain of
        Exit r \<Rightarrow> Exit r
      | Completed publicKeyRaw' authenticated' \<Rightarrow>
          verify_loop L (n + 1) publicKeyRaw' authenticated' rest)"

definition VerifyLoginRequest :: "'pub crypto \<Rightarrow> Chain list \<Rightarrow> 'pub verify_result" where
  "VerifyLoginRequest L chainList =
     (case verify_loop L 0 [] False chainList of
        Exit r \<Rightarrow> r
      | Completed publicKeyRaw authenticated \<Rightarrow>
          (case ParsePKIXPublicKey L (DecodeString L publicKeyRaw) of
             ParseError \<Rightarrow> VReturn False authenticated None
           | OtherKey \<Rightarrow> VPanic TypeAssertion
           | ECDSA key \<Rightarrow> VReturn True authenticated (Some key)))"




section \<open>Login: the handler\<close>

text \<open>
  The login packet, as far as the handler reads it. \<open>Protocol\<close> is an \<open>int32\<close> in the
  source and is only compared.
\<close>

record ClientData =
  GameVersion :: string
  DeviceOS :: int

record LoginPacket =
  Username :: string
  Protocol :: int
  ClientUUID :: UUID
  ClientXUID :: string
  ClientId :: int
  Chains :: "Chain list"
  ClientData :: ClientData
  Language :: string
  SkinId :: string
  SkinData :: "byte list"
  CapeData :: "byte list"
  GeometryName :: string
  GeometryData :: string

datatype IPacket = Login LoginPacket | OtherPacket nat

record SessionData =
  sd_ClientUUID :: UUID
  sd_ClientXUID :: string
  sd_ClientId :: int
  sd_ProtocolNumber :: int
  sd_GameVersion :: string
  sd_Language :: string
  sd_DeviceOS :: int

text \<open>
  The calls the handler makes on the session and on its player, in order, with the
  arguments that come from the packet or the configuration (\<open>MinecraftSession\<close> and its
  \<open>Kick\<close> are outside the modelled files). \<open>SetPlayer\<close> stands for
  \<open>SetPlayer(NewPlayer(uuid, xuid, platform, name))\<close>; the platform is the
  \<open>int32(...)\<close> conversion of the device OS, a 32-bit word (read with \<open>sint\<close>).
\<close>

datatype 'pub session_call =
    Kick string bool bool
  | SetData SessionData
  | SetPlayer UUID string "32 word" string
  | SetEncryptionData "'pub option"
  | Player_SetName string
  | Player_SetDisplayName string
  | Player_SetSkinId string
  | Player_SetSkinData "byte list"
  | Player_SetCapeData "byte list"
  | Player_SetGeometryName string
  | Player_SetGeometryData string
  | SetXBOXLiveAuthenticated bool
  | SendServerHandshake
  | EnableEncryption
  | SendPlayStatus_LoginSuccess
  | SendResourcePackInfo bool

record Config =
  XBOXLiveAuth :: bool
  UseEncryption_cfg :: bool
  ForceResourcePacks :: bool

text \<open>
  The state the handler works on: the server's session manager, the session the packet
  arrived on with the calls made on it so far, and the lines given to the debug logger.
\<close>

record 'pub login_state =
  manager :: SessionManager
  the_session :: MinecraftSession
  calls :: "'pub session_call list"
  debug :: "(string \<times> string) list"

text \<open>
  The handler of \<open>NewLoginHandler\<close>. \<open>LatestProtocol\<close> (\<open>info.LatestProtocol\<close>) is a
  parameter. After \<open>SetData\<close> and \<open>SetPlayer\<close> the session's accessors return the
  packet's name, UUID and XUID (\<open>NewPlayer\<close> stores them), which are the keys
  \<open>AddMinecraftSession\<close> files the session under.
\<close>

definition NewLoginHandler ::
  "'pub crypto \<Rightarrow> int \<Rightarrow> Config \<Rightarrow> IPacket \<Rightarrow> 'pub login_state
     \<Rightarrow> panic + (bool \<times> 'pub login_state)" where
  "NewLoginHandler L LatestProtocol config packet st =
     (case packet of
        OtherPacket i \<Rightarrow> Inr (False, st)
      | Login loginPacket \<Rightarrow>
          if GetSession (manager st) (Username loginPacket) \<noteq> None then Inr (False, st)
          else if Protocol loginPacket > LatestProtocol then
            Inr (False, st\<lparr>calls := calls st @ [Kick ''Outdated server.'' False True]\<rparr>)
          else if Protocol loginPacket < LatestProtocol then
            Inr (False, st\<lparr>calls := calls st @ [Kick ''Outdated client.'' False True]\<rparr>)
          else
            (case VerifyLoginRequest L (Chains loginPacket) of
               VPanic e \<Rightarrow> Inl e
             | VReturn successful authenticated pubKey \<Rightarrow>
                 if \<not> successful then
                   Inr (True, st\<lparr>debug := debug st @
                     [(Username loginPacket, ''has joined with invalid login data.'')]\<rparr>)
                 else if \<not> authenticated \<and> XBOXLiveAuth config then
                   Inr (True, st\<lparr>debug := debug st @
                       [(Username loginPacket,
                         ''has tried to join while not being logged into XBOX Live.'')],
                     calls := calls st @ [Kick ''XBOX Live account required.'' False False]\<rparr>)
                 else
                   let line = (if authenticated
                         then ''has joined while being logged into XBOX Live.''
                         else ''has joined while not being logged into XBOX Live.'');
                       sess = (the_session st)\<lparr>GetName := Username loginPacket,
                         GetPlayer_GetName := Some (Username loginPacket),
                         GetUUID := ClientUUID loginPacket,
                         GetXUID := ClientXUID loginPacket\<rparr>;
                       made =
                         [SetData \<lparr>sd_ClientUUID = ClientUUID loginPacket,
                            sd_ClientXUID = ClientXUID loginPacket,
                            sd_ClientId = ClientId loginPacket,
                            sd_ProtocolNumber = Protocol loginPacket,
                            sd_GameVersion = GameVersion (ClientData loginPacket),
                            sd_Language = Language loginPacket,
                            sd_DeviceOS = DeviceOS (ClientData loginPacket)\<rparr>,
                          SetPlayer (ClientUUID loginPacket) (ClientXUID loginPacket)
                            (word_of_int (DeviceOS (ClientData loginPacket)))
                            (Username loginPacket),
                          SetEncryptionData pubKey,
                          Player_SetName (Username loginPacket),
                          Player_SetDisplayName (Username loginPacket),
                          Player_SetSkinId (SkinId loginPacket),
                          Player_SetSkinData (SkinData loginPacket),
                          Player_SetCapeData (CapeData loginPacket),
                          Player_SetGeometryName (GeometryName loginPacket),
                          Player_SetGeometryData (GeometryData loginPacket),
                          SetXBOXLiveAuthenticated authenticated]
                         @ (if UseEncryption_cfg config
                            then [SendServerHandshake, EnableEncryption]
                            else [SendPlayStatus_LoginSuccess,
                                  SendResourcePackInfo (ForceResourcePacks config)])
                   in Inr (True,
                        st\<lparr>debug := debug st @ [(Username loginPacket, line)],
                           calls := calls st @ made,
                           the_session := sess,
                           manager := AddMinecraftSession (manager st) sess\<rparr>)))"

section \<open>Player\<close>

text \<open>
  \<open>Player\<close> embeds \<open>*entities.Entity\<close>, a pointer (library \<open>irmine/worlds\<close>). The fields
  \<open>Position\<close>, \<open>Rotation\<close>, \<open>OnGround\<close>, \<open>HasEntityDataUpdate\<close> and \<open>HasMovementUpdate\<close>
  that \<open>player.go\<close> reads and writes are not declared in \<open>Player\<close>: they are fields of
  that entity, promoted through the pointer. The entity record holds them together with
  what \<open>GetRuntimeId()\<close>, \<open>GetRidingId()\<close> and \<open>GetViewers()\<close> (in the order \<open>range\<close>
  visits them) return. Positions and rotations are carried, never computed with.
\<close>

record ('pos, 'rot) Entity =
  Position :: 'pos
  Rotation :: 'rot
  OnGround :: bool
  HasEntityDataUpdate :: bool
  HasMovementUpdate :: bool
  GetRuntimeId :: nat
  GetRidingId :: nat
  GetViewers :: "nat list"

text \<open>The \<open>Player\<close> struct; \<open>Entity_ptr\<close> is the embedded pointer (\<open>None\<close> is nil).\<close>

record Player =
  Entity_ptr :: "nat option"
  uuid :: UUID
  xuid :: string
  platform :: "32 word"
  playerName :: string
  displayName :: string
  skinId :: string
  skinData :: "byte list"
  capeData :: "byte list"
  geometryName :: string
  geometryData :: string

text \<open>The store of entities, by address.\<close>

type_synonym ('pos, 'rot) entities = "nat \<rightharpoonup> ('pos, 'rot) Entity"

text \<open>
  What a tick sends: the entity's own \<open>BroadcastUpdatedEntityData()\<close> (of the library,
  recorded as a call on the entity at that address) and one \<open>SendMovePlayer\<close> per viewer.
\<close>

datatype ('pos, 'rot) player_event =
    BroadcastUpdatedEntityData nat
  | SendMovePlayer nat nat 'pos 'rot nat bool nat

definition BroadcastMovement ::
  "Player \<Rightarrow> ('pos, 'rot) entities \<Rightarrow> panic + ('pos, 'rot) player_event list" where
  "BroadcastMovement player h =
     (case Entity_ptr player of
        None \<Rightarrow> Inl NilDereference
      | Some a \<Rightarrow>
          (case h a of
             None \<Rightarrow> Inl NilDereference
           | Some e \<Rightarrow>
               Inr (map (\<lambda>viewer. SendMovePlayer viewer (GetRuntimeId e) (Position e) (Rotation e)
                                     0 (OnGround e) (GetRidingId e))
                        (GetViewers e))))"

text \<open>
  \<open>func (player Player) Tick()\<close>. The receiver is a copy of the struct, so no field of
  the caller's \<open>Player\<close> struct can change and none is assigned; the two flag assignments
  go through the embedded pointer, into the store. The result is the store and what was
  sent.
\<close>

definition Tick ::
  "Player \<Rightarrow> ('pos, 'rot) entities
     \<Rightarrow> panic + (('pos, 'rot) entities \<times> ('pos, 'rot) player_event list)" where
  "Tick player h =
     (case Entity_ptr player of
        None \<Rightarrow> Inl NilDereference
      | Some a \<Rightarrow>
          (case h a of
             None \<Rightarrow> Inl NilDereference
           | Some e \<Rightarrow>
               let (h1, e1, sent) =
                     (if HasEntityDataUpdate e
                      then (h(a \<mapsto> e\<lparr>HasEntityDataUpdate := False\<rparr>),
                            e\<lparr>HasEntityDataUpdate := False\<rparr>,
                            [BroadcastUpdatedEntityData a])
                      else (h, e, []));
                   h2 = (if HasMovementUpdate e1
                         then h1(a \<mapsto> e1\<lparr>HasMovementUpdate := False\<rparr>)
                         else h1)
               in case BroadcastMovement player h2 of
                    Inl x \<Rightarrow> Inl x
                  | Inr moved \<Rightarrow> Inr (h2, sent @ moved)))"

section \<open>Sample values for concrete runs\<close>

text \<open>
  A stand-in block function (not AES), a 16-byte IV and a stand-in checksum, used where a
  theorem is run on concrete data.
\<close>

definition test_block :: Block where
  "test_block xs = map (\<lambda>b. b + 7) (rev xs)"

definition test_iv :: "byte list" where
  "test_iv = [1, 2, 3, 4, 5, 6, 7, 8, 9, 10, 11, 12, 13, 14, 15, 16]"

definition test_checksum :: "byte list \<Rightarrow> byte list" where
  "test_checksum d = [0xA1, 0xA2, 0xA3, 0xA4, 0xA5, 0xA6, 0xA7, 0xA8]"

definition test_data :: EncryptionData where
  "test_data = \<lparr>EncryptCipher = test_block, EncryptIV = test_iv,
                 DecryptCipher = test_block, DecryptIV = test_iv\<rparr>"

text \<open>
  A stand-in inflater: the first byte is the length of the payload that follows; bytes
  after the payload are not read; a short payload is a read error, an empty input a
  header error. A stand-in record reader: a one-byte length prefix, with a panic on a
  record that runs past the buffer.
\<close>

definition test_zlib :: zlib where
  "test_zlib xs =
     (case xs of
        [] \<Rightarrow> NewReaderError
      | n # r \<Rightarrow> if unat n \<le> length r then ReadAll (take (unat n) r) False else ReadAll r True)"

definition test_lib :: binutils where
  "test_lib =
     \<lparr>Feof = (\<lambda>s. length (Buffer s) \<le> Offset s),
      GetLengthPrefixedBytes = (\<lambda>s.
        case drop (Offset s) (Buffer s) of
          [] \<Rightarrow> Inl (IndexOutOfRange, s)
        | n # r \<Rightarrow>
            if length r < unat n then Inl (SliceBounds, s\<lparr>Offset := Offset s + 1\<rparr>)
            else Inr (take (unat n) r, s\<lparr>Offset := Offset s + 1 + unat n\<rparr>))\<rparr>"


definition test_session :: "bool \<Rightarrow> BatchSession" where
  "test_session enc =
     \<lparr>Data = Some test_data, UsesEncryption = enc, IsPacketRegistered = (\<lambda>i. i = 1)\<rparr>"

definition test_batch :: "bool \<Rightarrow> byte list \<Rightarrow> MinecraftPacketBatch" where
  "test_batch enc buf =
     (NewMinecraftPacketBatch (Some (test_session enc)))\<lparr>stream := \<lparr>Buffer = buf, Offset = 0\<rparr>\<rparr>"

text \<open>Sessions: Alice and Bob are not logged into XBOX Live (empty XUID).\<close>

definition test_alice :: MinecraftSession where
  "test_alice = \<lparr>ptr = 1, GetName = ''Alice'', GetPlayer_GetName = Some ''Alice'',
                  GetUUID = [1], GetXUID = [], Sprint_GetSession = ''&{1}''\<rparr>"

definition test_bob :: MinecraftSession where
  "test_bob = \<lparr>ptr = 2, GetName = ''Bob'', GetPlayer_GetName = Some ''Bob'',
                GetUUID = [2], GetXUID = [], Sprint_GetSession = ''&{2}''\<rparr>"

definition test_carol :: MinecraftSession where
  "test_carol = \<lparr>ptr = 3, GetName = ''Carol'', GetPlayer_GetName = Some ''Carol'',
                  GetUUID = [3], GetXUID = ''2535'', Sprint_GetSession = ''&{3}''\<rparr>"

definition test_alice2 :: MinecraftSession where
  "test_alice2 = \<lparr>ptr = 4, GetName = ''Alice'', GetPlayer_GetName = Some ''Alice'',
                   GetUUID = [1], GetXUID = [], Sprint_GetSession = ''&{4}''\<rparr>"

text \<open>
  A stand-in for the cryptographic library: key texts are their own decoding, the empty
  text does not parse, \<open>rsa\<close> parses to a key that is not ECDSA, and a signature
  verifies under a key exactly when it spells the key's text. Tokens, a login packet, a
  configuration and a fresh session on a given state.
\<close>

definition test_crypto :: "string crypto" where
  "test_crypto =
     \<lparr>DecodeString = (\<lambda>s. s),
      ParsePKIXPublicKey = (\<lambda>s. if s = [] then ParseError else if s = ''rsa'' then OtherKey else ECDSA s),
      Sum384 = (\<lambda>s. s),
      Verify = (\<lambda>k h r s. r @ s = k),
      Now = (\<lambda>n. 1000 + int n),
      MojangPublicKey = ''mojang''\<rparr>"

definition test_token :: "string \<Rightarrow> string \<Rightarrow> string \<Rightarrow> Chain" where
  "test_token x5u sig ident =
     \<lparr>Header = \<lparr>X5u = x5u, Header_Raw = ''h''\<rparr>,
      Payload = \<lparr>Payload_Raw = ''p'', ExpirationTime = 0, NotBefore = 0, IssuedAt = 0,
                 IdentityPublicKey = ident\<rparr>,
      Signature = sig\<rparr>"

definition test_login :: "string \<Rightarrow> int \<Rightarrow> Chain list \<Rightarrow> LoginPacket" where
  "test_login name proto chs =
     \<lparr>Username = name, Protocol = proto, ClientUUID = [7], ClientXUID = [], ClientId = 1,
      Chains = chs, ClientData = \<lparr>GameVersion = ''1.5'', DeviceOS = 1\<rparr>, Language = ''en_US'',
      SkinId = ''skin'', SkinData = [], CapeData = [], GeometryName = ''geo'', GeometryData = []\<rparr>"

definition test_config :: Config where
  "test_config = \<lparr>XBOXLiveAuth = False, UseEncryption_cfg = False, ForceResourcePacks = False\<rparr>"

definition test_unnamed :: "nat \<Rightarrow> MinecraftSession" where
  "test_unnamed p = \<lparr>ptr = p, GetName = [], GetPlayer_GetName = None, GetUUID = [],
                      GetXUID = [], Sprint_GetSession = ''&{}''\<rparr>"

definition test_state :: "SessionManager \<Rightarrow> nat \<Rightarrow> string login_state" where
  "test_state m p = \<lparr>manager = m, the_session = test_unnamed p, calls = [], debug = []\<rparr>"

definition test_first_login :: "panic + bool \<times> string login_state" where
  "test_first_login =
     NewLoginHandler test_crypto 261 test_config
       (Login (test_login ''Bob'' 261 [test_token ''self'' ''self'' ''client'']))
       (test_state NewSessionManager 1)"

text \<open>A player whose entity, at address 40, has both flags set and two viewers.\<close>

definition test_entity :: "(int \<times> int \<times> int, int \<times> int \<times> int) Entity" where
  "test_entity = \<lparr>Position = (0, 7, 0), Rotation = (0, 90, 90), OnGround = True,
                   HasEntityDataUpdate = True, HasMovementUpdate = True,
                   GetRuntimeId = 5, GetRidingId = 0, GetViewers = [11, 12]\<rparr>"

definition test_player :: Player where
  "test_player = \<lparr>Entity_ptr = Some 40, uuid = [7], xuid = [], platform = 1,
                   playerName = ''Bob'', displayName = ''Bob'', skinId = ''skin'', skinData = [],
                   capeData = [], geometryName = ''geo'', geometryData = []\<rparr>"

section \<open>Properties of the cipher loops\<close>

lemma encrypt_loop_total:
  "length iv = BlockSize \<Longrightarrow> \<exists>c iv'. encrypt_loop E iv x = Inr (c, iv') \<and> length iv' = BlockSize
     \<and> length c = length x"
proof (induction x arbitrary: iv)
  case Nil
  then show ?case by simp
next
  case (Cons p ps)
  let ?c = "p XOR keystream_byte E iv"
  from Cons.prems have len: "length (tl iv @ [?c]) = BlockSize"
    by (simp add: BlockSize_def)
  from Cons.IH [OF len] obtain cs iv' where
    "encrypt_loop E (tl iv @ [?c]) ps = Inr (cs, iv')" "length iv' = BlockSize"
    "length cs = length ps"
    by blast
  with Cons.prems show ?case
    by (simp add: XORKeyStream1_def)
qed

lemma decrypt_encrypt_loop:
  "length iv = BlockSize \<Longrightarrow> encrypt_loop E iv x = Inr (c, iv') \<Longrightarrow>
     decrypt_loop E iv c = Inr (x, iv')"
proof (induction x arbitrary: iv c)
  case Nil
  then show ?case by simp
next
  case (Cons p ps)
  let ?c = "p XOR keystream_byte E iv"
  from Cons.prems(1) have len: "length (tl iv @ [?c]) = BlockSize"
    by (simp add: BlockSize_def)
  from Cons.prems obtain cs where
    c: "c = ?c # cs" and rest: "encrypt_loop E (tl iv @ [?c]) ps = Inr (cs, iv')"
    by (auto simp: XORKeyStream1_def split: sum.splits)
  have "decrypt_loop E (tl iv @ [?c]) cs = Inr (ps, iv')"
    by (rule Cons.IH [OF len rest])
  with Cons.prems(1) c show ?case
    by (simp add: XORKeyStream1_def xor.assoc)
qed

lemma encrypt_loop_rolls_iv:
  "length iv = BlockSize \<Longrightarrow> encrypt_loop E iv x = Inr (c, iv') \<Longrightarrow>
     iv' = drop (length c) (iv @ c)"
proof (induction x arbitrary: iv c)
  case Nil
  then show ?case by simp
next
  case (Cons p ps)
  let ?c = "p XOR keystream_byte E iv"
  from Cons.prems(1) have len: "length (tl iv @ [?c]) = BlockSize"
    by (simp add: BlockSize_def)
  from Cons.prems(1) obtain a as where iv: "iv = a # as"
    by (cases iv) (simp_all add: BlockSize_def)
  from Cons.prems obtain cs where
    c: "c = ?c # cs" and rest: "encrypt_loop E (tl iv @ [?c]) ps = Inr (cs, iv')"
    by (auto simp: XORKeyStream1_def split: sum.splits)
  have "iv' = drop (length cs) ((tl iv @ [?c]) @ cs)"
    by (rule Cons.IH [OF len rest])
  with c iv show ?case by simp
qed

lemma encrypt_loop_keystream:
  "length iv = BlockSize \<Longrightarrow> encrypt_loop E iv x = Inr (c, iv') \<Longrightarrow> i < length x \<Longrightarrow>
     c ! i = x ! i XOR (case E (drop i (iv @ take i c)) of [] \<Rightarrow> 0 | k # _ \<Rightarrow> k)"
proof (induction x arbitrary: iv c i)
  case Nil
  then show ?case by simp
next
  case (Cons p ps)
  let ?c = "p XOR keystream_byte E iv"
  from Cons.prems(1) have len: "length (tl iv @ [?c]) = BlockSize"
    by (simp add: BlockSize_def)
  from Cons.prems(1) obtain a as where iv: "iv = a # as"
    by (cases iv) (simp_all add: BlockSize_def)
  from Cons.prems(1,2) obtain cs where
    c: "c = ?c # cs" and rest: "encrypt_loop E (tl iv @ [?c]) ps = Inr (cs, iv')"
    by (auto simp: XORKeyStream1_def split: sum.splits)
  show ?case
  proof (cases i)
    case 0
    with c show ?thesis
      by (simp add: keystream_byte_def)
  next
    case (Suc j)
    with Cons.prems(3) have j: "j < length ps"
      by simp
    from Cons.IH [OF len rest j]
    have "cs ! j = ps ! j XOR (case E (drop j ((tl iv @ [?c]) @ take j cs)) of [] \<Rightarrow> 0 | k # _ \<Rightarrow> k)" .
    with Suc c iv show ?thesis
      by simp
  qed
qed

lemma encrypt_loop_length:
  "encrypt_loop E iv x = Inr (c, iv') \<Longrightarrow> length c = length x"
  by (induction x arbitrary: iv c) (auto split: sum.splits)

text \<open>
  C4 (as amended). A sender and a receiver that start from the same AES key and the
  same 16-byte IV. \<open>encrypt\<close> succeeds; its output has the length of the plaintext plus
  the checksum suffix; byte \<open>i\<close> of it is byte \<open>i\<close> of the suffixed plaintext XORed
  with the first byte of the block function applied to the IV as it then stands, which
  is the last 16 bytes of the initial IV followed by the first \<open>i\<close> ciphertext bytes
  (a fresh CFB stream over the stored IV, rolled by one ciphertext byte per byte).
  \<open>decrypt\<close> of that output gives back the plaintext followed by the checksum suffix,
  and both sides end with the same IV. The two loops alone are inverse on every buffer.
\<close>

theorem cfb_rolling_iv_roundtrip:
  assumes "length (EncryptIV sender) = BlockSize"
    and "DecryptIV receiver = EncryptIV sender"
    and "DecryptCipher receiver = EncryptCipher sender"
  shows "\<exists>c sender' receiver' c0 iv0.
           encrypt ComputeSendChecksum (Some sender) d = Inr (c, Some sender')
         \<and> length c = length d + length (ComputeSendChecksum d)
         \<and> (\<forall>i<length c.
               c ! i = (d @ ComputeSendChecksum d) ! i
                 XOR (case EncryptCipher sender (drop i (EncryptIV sender @ take i c)) of
                        [] \<Rightarrow> 0 | k # _ \<Rightarrow> k))
         \<and> decrypt (Some receiver) c = Inr (d @ ComputeSendChecksum d, Some receiver')
         \<and> DecryptIV receiver' = EncryptIV sender'
         \<and> EncryptIV sender' = drop (length c) (EncryptIV sender @ c)
         \<and> encrypt_loop (EncryptCipher sender) (EncryptIV sender) d = Inr (c0, iv0)
         \<and> (\<forall>i<length d.
               c0 ! i = d ! i
                 XOR (case EncryptCipher sender (drop i (EncryptIV sender @ take i c0)) of
                        [] \<Rightarrow> 0 | k # _ \<Rightarrow> k))
         \<and> decrypt_loop (DecryptCipher receiver) (DecryptIV receiver) c0 = Inr (d, iv0)
         \<and> iv0 = drop (length c0) (EncryptIV sender @ c0)"
proof -
  let ?E = "EncryptCipher sender" and ?iv = "EncryptIV sender"
  let ?buf = "d @ ComputeSendChecksum d"
  from encrypt_loop_total [OF assms(1)] obtain c iv' where
    enc: "encrypt_loop ?E ?iv ?buf = Inr (c, iv')"
    by blast
  have dec: "decrypt_loop ?E ?iv c = Inr (?buf, iv')"
    by (rule decrypt_encrypt_loop [OF assms(1) enc])
  have roll: "iv' = drop (length c) (?iv @ c)"
    by (rule encrypt_loop_rolls_iv [OF assms(1) enc])
  have len: "length c = length d + length (ComputeSendChecksum d)"
    using encrypt_loop_length [OF enc] by simp
  have ks: "\<forall>i<length c. c ! i = ?buf ! i
      XOR (case ?E (drop i (?iv @ take i c)) of [] \<Rightarrow> 0 | k # _ \<Rightarrow> k)"
    using encrypt_loop_keystream [OF assms(1) enc] len by simp
  from encrypt_loop_total [OF assms(1)] obtain c0 iv0 where
    enc0: "encrypt_loop ?E ?iv d = Inr (c0, iv0)"
    by blast
  have dec0: "decrypt_loop ?E ?iv c0 = Inr (d, iv0)"
    by (rule decrypt_encrypt_loop [OF assms(1) enc0])
  have roll0: "iv0 = drop (length c0) (?iv @ c0)"
    by (rule encrypt_loop_rolls_iv [OF assms(1) enc0])
  have ks0: "\<forall>i<length d. c0 ! i = d ! i
      XOR (case ?E (drop i (?iv @ take i c0)) of [] \<Rightarrow> 0 | k # _ \<Rightarrow> k)"
    using encrypt_loop_keystream [OF assms(1) enc0] by simp
  have 1: "encrypt ComputeSendChecksum (Some sender) d =
             Inr (c, Some (sender\<lparr>EncryptIV := iv'\<rparr>))"
    using enc by (simp add: encrypt_def)
  have 2: "decrypt (Some receiver) c = Inr (?buf, Some (receiver\<lparr>DecryptIV := iv'\<rparr>))"
    using dec assms(2,3) by (simp add: decrypt_def)
  have 3: "decrypt_loop (DecryptCipher receiver) (DecryptIV receiver) c0 = Inr (d, iv0)"
    using dec0 assms(2,3) by simp
  have 4: "EncryptIV (sender\<lparr>EncryptIV := iv'\<rparr>) = drop (length c) (?iv @ c)"
    using roll by simp
  have 5: "DecryptIV (receiver\<lparr>DecryptIV := iv'\<rparr>) = EncryptIV (sender\<lparr>EncryptIV := iv'\<rparr>)"
    by simp
  from 1 len ks 2 5 4 enc0 ks0 3 roll0 show ?thesis
    by blast
qed

text \<open>
  C4 as stated fails for \<open>encrypt\<close> and \<open>decrypt\<close> themselves: \<open>encrypt\<close> appends the
  checksum before enciphering and \<open>decrypt\<close> does not remove it, so what comes back is
  the plaintext followed by the suffix, not the plaintext.
\<close>

theorem cfb_roundtrip_counterexample:
  "encrypt test_checksum (Some test_data) [3, 2, 1, 9] =
     Inr ([20, 25, 33, 33, 137, 50, 154, 5, 169, 22, 186, 105],
          Some (test_data\<lparr>EncryptIV :=
                  [13, 14, 15, 16, 20, 25, 33, 33, 137, 50, 154, 5, 169, 22, 186, 105]\<rparr>))
 \<and> decrypt (Some test_data) [20, 25, 33, 33, 137, 50, 154, 5, 169, 22, 186, 105] =
     Inr ([3, 2, 1, 9, 0xA1, 0xA2, 0xA3, 0xA4, 0xA5, 0xA6, 0xA7, 0xA8],
          Some (test_data\<lparr>DecryptIV :=
                  [13, 14, 15, 16, 20, 25, 33, 33, 137, 50, 154, 5, 169, 22, 186, 105]\<rparr>))
 \<and> [3, 2, 1, 9, 0xA1, 0xA2, 0xA3, 0xA4, 0xA5, 0xA6, 0xA7, 0xA8] \<noteq> [3, 2, 1, 9 :: byte]"
  by (simp add: encrypt_def decrypt_def test_checksum_def test_data_def test_block_def test_iv_def
      XORKeyStream1_def keystream_byte_def BlockSize_def)

theorem cfb_rolling_iv_roundtrip_witness:
  "length (EncryptIV test_data) = BlockSize
 \<and> encrypt test_checksum (Some test_data) [3, 2, 1, 9] =
     Inr ([20, 25, 33, 33, 137, 50, 154, 5, 169, 22, 186, 105],
          Some (test_data\<lparr>EncryptIV :=
                  [13, 14, 15, 16, 20, 25, 33, 33, 137, 50, 154, 5, 169, 22, 186, 105]\<rparr>))
 \<and> (20 :: byte) = 3 XOR (case test_block test_iv of [] \<Rightarrow> 0 | k # _ \<Rightarrow> k)
 \<and> (\<exists>receiver'.
       decrypt (Some test_data) [20, 25, 33, 33, 137, 50, 154, 5, 169, 22, 186, 105] =
         Inr ([3, 2, 1, 9, 0xA1, 0xA2, 0xA3, 0xA4, 0xA5, 0xA6, 0xA7, 0xA8], Some receiver')
     \<and> DecryptIV receiver' =
         [13, 14, 15, 16, 20, 25, 33, 33, 137, 50, 154, 5, 169, 22, 186, 105])"
proof -
  let ?c = "[20, 25, 33, 33, 137, 50, 154, 5, 169, 22, 186, 105] :: byte list"
  let ?iv' = "[13, 14, 15, 16, 20, 25, 33, 33, 137, 50, 154, 5, 169, 22, 186, 105] :: byte list"
  have h: "length (EncryptIV test_data) = BlockSize"
    by (simp add: test_data_def test_iv_def BlockSize_def)
  have h2: "DecryptIV test_data = EncryptIV test_data"
    by (simp add: test_data_def)
  have h3: "DecryptCipher test_data = EncryptCipher test_data"
    by (simp add: test_data_def)
  have e: "encrypt test_checksum (Some test_data) [3, 2, 1, 9] =
      Inr (?c, Some (test_data\<lparr>EncryptIV := ?iv'\<rparr>))"
    by (simp add: encrypt_def test_checksum_def test_data_def test_block_def test_iv_def
        XORKeyStream1_def keystream_byte_def BlockSize_def)
  have buf: "[3, 2, 1, 9] @ test_checksum [3, 2, 1, 9] =
      [3, 2, 1, 9, 0xA1, 0xA2, 0xA3, 0xA4, 0xA5, 0xA6, 0xA7, 0xA8]"
    by (simp add: test_checksum_def)
  from cfb_rolling_iv_roundtrip [where sender = test_data and receiver = test_data
      and ComputeSendChecksum = test_checksum and d = "[3, 2, 1, 9]", OF h h2 h3]
  obtain c sender' receiver' where
    enc: "encrypt test_checksum (Some test_data) [3, 2, 1, 9] = Inr (c, Some sender')"
    and ks: "\<forall>i<length c. c ! i = ([3, 2, 1, 9] @ test_checksum [3, 2, 1, 9]) ! i
        XOR (case EncryptCipher test_data (drop i (EncryptIV test_data @ take i c)) of
               [] \<Rightarrow> 0 | k # _ \<Rightarrow> k)"
    and dec: "decrypt (Some test_data) c =
        Inr ([3, 2, 1, 9] @ test_checksum [3, 2, 1, 9], Some receiver')"
    and ivs: "DecryptIV receiver' = EncryptIV sender'"
    by blast
  from enc e have c: "c = ?c"
    by simp
  from enc e have s: "sender' = test_data\<lparr>EncryptIV := ?iv'\<rparr>"
    by auto
  from ks c have "?c ! 0 = ([3, 2, 1, 9] @ test_checksum [3, 2, 1, 9]) ! 0
        XOR (case EncryptCipher test_data (drop 0 (EncryptIV test_data @ take 0 ?c)) of
               [] \<Rightarrow> 0 | k # _ \<Rightarrow> k)"
    by (metis length_greater_0_conv list.distinct(1))
  then have first: "(20 :: byte) = 3 XOR (case test_block test_iv of [] \<Rightarrow> 0 | k # _ \<Rightarrow> k)"
    by (simp add: test_data_def)
  from dec c buf have d': "decrypt (Some test_data) ?c =
      Inr ([3, 2, 1, 9, 0xA1, 0xA2, 0xA3, 0xA4, 0xA5, 0xA6, 0xA7, 0xA8], Some receiver')"
    by simp
  from ivs s have "DecryptIV receiver' = ?iv'"
    by simp
  with h e first d' show ?thesis
    by blast
qed

section \<open>Properties of batch decoding\<close>




lemma test_batch_simps:
  "stream (test_batch enc buf) = \<lparr>Buffer = buf, Offset = 0\<rparr>"
  "packets (test_batch enc buf) = []"
  "needsEncryption (test_batch enc buf) = enc"
  "session (test_batch enc buf) = Some (test_session enc)"
  by (simp_all add: test_batch_def NewMinecraftPacketBatch_def test_session_def)



lemma decrypt_loop_total:
  "length iv = BlockSize \<Longrightarrow>
     \<exists>p v. decrypt_loop E iv c = Inr (p, v) \<and> length p = length c"
proof (induction c arbitrary: iv)
  case Nil
  then show ?case by simp
next
  case (Cons b bs)
  from Cons.prems have len: "length (tl iv @ [b]) = BlockSize"
    by (simp add: BlockSize_def)
  from Cons.IH [OF len] obtain ps v where
    "decrypt_loop E (tl iv @ [b]) bs = Inr (ps, v)" "length ps = length bs"
    by blast
  with Cons.prems show ?case
    by (simp add: XORKeyStream1_def)
qed

lemma decrypt_loop_prefix:
  "length iv = BlockSize \<Longrightarrow> take n c' = take n c \<Longrightarrow> n \<le> length c \<Longrightarrow> n \<le> length c' \<Longrightarrow>
   decrypt_loop E iv c = Inr (p, v) \<Longrightarrow> decrypt_loop E iv c' = Inr (p', v') \<Longrightarrow>
   take n p' = take n p"
proof (induction n arbitrary: iv c c' p p' v v')
  case 0
  then show ?case by simp
next
  case (Suc n)
  from Suc.prems(3) obtain x xs where c: "c = x # xs"
    by (cases c) simp_all
  from Suc.prems(4) obtain y ys where c': "c' = y # ys"
    by (cases c') simp_all
  from Suc.prems(2) c c' have xy: "y = x" and pre: "take n ys = take n xs"
    by simp_all
  from Suc.prems(1) have len: "length (tl iv @ [x]) = BlockSize"
    by (simp add: BlockSize_def)
  let ?q = "x XOR keystream_byte E iv"
  from Suc.prems(1,5) c obtain ps where
    p: "p = ?q # ps" and r: "decrypt_loop E (tl iv @ [x]) xs = Inr (ps, v)"
    by (auto simp: XORKeyStream1_def split: sum.splits)
  from Suc.prems(1,6) c' xy obtain ps' where
    p': "p' = ?q # ps'" and r': "decrypt_loop E (tl iv @ [x]) ys = Inr (ps', v')"
    by (auto simp: XORKeyStream1_def split: sum.splits)
  from Suc.prems(3,4) c c' have "n \<le> length xs" "n \<le> length ys"
    by simp_all
  from Suc.IH [OF len pre this r r'] have "take n ps' = take n ps" .
  with p p' show ?case by simp
qed

lemma fetchPackets_registry:
  "IsPacketRegistered s' = IsPacketRegistered s \<Longrightarrow>
     fetchPackets (Some s') ds pkts = fetchPackets (Some s) ds pkts"
proof (induction ds arbitrary: pkts)
  case Nil
  then show ?case by simp
next
  case (Cons d ds)
  then show ?case by (cases d) simp_all
qed

lemma push_bit_byte_nonzero: "k < 8 \<Longrightarrow> (push_bit k 1 :: byte) \<noteq> 0"
  by simp

lemma flip_bit_changes:
  assumes "k < 8"
  shows "(x :: byte) XOR push_bit k 1 \<noteq> x"
proof
  assume "x XOR push_bit k 1 = x"
  then have "x XOR (x XOR push_bit k 1) = x XOR x"
    by simp
  then have "(push_bit k 1 :: byte) = 0"
    by (simp add: xor.assoc [symmetric])
  with push_bit_byte_nonzero [OF assms] show False
    by simp
qed

lemma Decode_head_encrypted:
  assumes "stream b = \<lparr>Buffer = McpeFlag # c, Offset = 0\<rparr>"
    and "needsEncryption b" and "session b = Some sess" and "Data sess = Some dat"
    and "decrypt_loop (DecryptCipher dat) (DecryptIV dat) c = Inr (p, v)"
  shows "Decode_head b =
           Next (b\<lparr>stream := \<lparr>Buffer = McpeFlag # p, Offset = 1\<rparr>, raw := p,
                    session := Some (sess\<lparr>Data := Some (dat\<lparr>DecryptIV := v\<rparr>)\<rparr>)\<rparr>)"
  using assms by (simp add: Decode_head_def GetByte_def decrypt_def)

text \<open>
  C1. \<open>Decode\<close> does not validate the trailing 8-byte checksum. Let a body decrypt to a
  compressed stream \<open>zs\<close> followed by 8 checksum bytes, with an inflater that does not
  read past the end of the stream. Flipping any bit \<open>k\<close> of any body byte \<open>i\<close> inside the
  checksum suffix changes the body, and \<open>Decode\<close> yields exactly the packets of the
  untouched batch: the tampered batch is accepted.
\<close>

theorem Decode_accepts_flipped_checksum:
  assumes "stream b = \<lparr>Buffer = McpeFlag # c, Offset = 0\<rparr>"
    and "needsEncryption b" and "session b = Some sess" and "Data sess = Some dat"
    and "length (DecryptIV dat) = BlockSize"
    and "decrypt_loop (DecryptCipher dat) (DecryptIV dat) c = Inr (zs @ cks, v)"
    and "length cks = 8"
    and "\<forall>t. length t = 8 \<longrightarrow> z (zs @ t) = z (zs @ cks)"
    and "length zs \<le> i" and "i < length c" and "k < 8"
  shows "c[i := c ! i XOR push_bit k 1] \<noteq> c
       \<and> map_option packets
            (Decode lib z (b\<lparr>stream := \<lparr>Buffer = McpeFlag # c[i := c ! i XOR push_bit k 1],
                                        Offset = 0\<rparr>\<rparr>))
         = map_option packets (Decode lib z b)"
proof
  let ?c' = "c[i := c ! i XOR push_bit k 1]"
  let ?b' = "b\<lparr>stream := \<lparr>Buffer = McpeFlag # ?c', Offset = 0\<rparr>\<rparr>"
  let ?E = "DecryptCipher dat" and ?iv = "DecryptIV dat"
  have "?c' ! i = c ! i XOR push_bit k 1"
    using assms(10) by (simp only: nth_list_update_eq)
  with flip_bit_changes [OF assms(11), of "c ! i"] have "?c' ! i \<noteq> c ! i"
    by simp
  then show "?c' \<noteq> c"
    by metis
  from decrypt_loop_total [OF assms(5), of ?E c] assms(6)
  have lenc: "length c = length zs + 8"
    using assms(7) by simp
  from decrypt_loop_total [OF assms(5), of ?E ?c'] obtain p' v' where
    dec': "decrypt_loop ?E ?iv ?c' = Inr (p', v')" and lenp': "length p' = length c"
    by auto
  have pre: "take (length zs) ?c' = take (length zs) c"
    using assms(9) by simp
  have "take (length zs) p' = take (length zs) (zs @ cks)"
    using decrypt_loop_prefix [OF assms(5) pre _ _ assms(6) dec'] lenc by simp
  then have "p' = zs @ drop (length zs) p'"
    by (metis append_take_drop_id append_eq_conv_conj)
  moreover have "length (drop (length zs) p') = 8"
    using lenp' lenc by simp
  ultimately obtain t where p': "p' = zs @ t" and t: "length t = 8"
    by blast
  have zeq: "z p' = z (zs @ cks)"
    using assms(8) p' t by simp
  let ?b2 = "b\<lparr>stream := \<lparr>Buffer = McpeFlag # (zs @ cks), Offset = 1\<rparr>, raw := zs @ cks,
                  session := Some (sess\<lparr>Data := Some (dat\<lparr>DecryptIV := v\<rparr>)\<rparr>)\<rparr>"
  let ?b2' = "?b'\<lparr>stream := \<lparr>Buffer = McpeFlag # p', Offset = 1\<rparr>, raw := p',
                  session := Some (sess\<lparr>Data := Some (dat\<lparr>DecryptIV := v'\<rparr>)\<rparr>)\<rparr>"
  have h: "Decode_head b = Next ?b2"
    by (rule Decode_head_encrypted [OF assms(1-4) assms(6)])
  have h': "Decode_head ?b' = Next ?b2'"
    by (rule Decode_head_encrypted [OF _ _ _ assms(4) dec']) (simp_all add: assms(2,3))
  have rs: "ResetStream (stream ?b2') = ResetStream (stream ?b2)"
    by (simp add: ResetStream_def)
  have fp: "fetchPackets (session ?b2') ds (packets ?b2') = fetchPackets (session ?b2) ds (packets ?b2)" for ds
    using fetchPackets_registry [of "sess\<lparr>Data := Some (dat\<lparr>DecryptIV := v'\<rparr>)\<rparr>"
        "sess\<lparr>Data := Some (dat\<lparr>DecryptIV := v\<rparr>)\<rparr>" ds "packets b"]
    by simp
  show "map_option packets (Decode lib z ?b') = map_option packets (Decode lib z b)"
  proof (cases "z (zs @ cks)")
    case NewReaderError
    then have "decompress z (raw ?b2') = (p', True)" "decompress z (raw ?b2) = (zs @ cks, True)"
      using zeq by (simp_all add: decompress_def)
    then show ?thesis
      unfolding Decode_def h h' flow.case by simp
  next
    case (ReadAll data err)
    then have dz: "decompress z (raw ?b2') = (data, err)" "decompress z (raw ?b2) = (data, err)"
      using zeq by (simp_all add: decompress_def)
    show ?thesis
      unfolding Decode_def h h' flow.case dz rs fp
      by (simp split: prod.splits bool.splits option.splits sum.splits)
  qed
qed

lemma test_decrypt_body:
  "decrypt_loop test_block test_iv [20, 25, 33, 33, 137, 50, 154, 5, 169, 22, 186, 105] =
     Inr ([3, 2, 1, 9] @ [0xA1, 0xA2, 0xA3, 0xA4, 0xA5, 0xA6, 0xA7, 0xA8],
          [13, 14, 15, 16, 20, 25, 33, 33, 137, 50, 154, 5, 169, 22, 186, 105])"
  by (simp add: test_block_def test_iv_def XORKeyStream1_def keystream_byte_def BlockSize_def)

theorem Decode_accepts_flipped_checksum_witness:
  "map_option packets (Decode test_lib test_zlib
       (test_batch True [0xFE, 20, 25, 33, 33, 137, 50, 154, 5, 169, 22, 186, 104])) =
     Some [(1, [1, 9])]
 \<and> map_option packets (Decode test_lib test_zlib
       (test_batch True [0xFE, 20, 25, 33, 33, 137, 50, 154, 5, 169, 22, 186, 105])) =
     Some [(1, [1, 9])]"
proof -
  let ?c = "[20, 25, 33, 33, 137, 50, 154, 5, 169, 22, 186, 105] :: byte list"
  let ?b = "test_batch True (McpeFlag # ?c)"
  have h1: "stream ?b = \<lparr>Buffer = McpeFlag # ?c, Offset = 0\<rparr>"
    by (simp add: test_batch_simps)
  have h2: "needsEncryption ?b"
    by (simp add: test_batch_simps)
  have h3: "session ?b = Some (test_session True)"
    by (simp add: test_batch_simps)
  have h4: "Data (test_session True) = Some test_data"
    by (simp add: test_session_def)
  have h5: "length (DecryptIV test_data) = BlockSize"
    by (simp add: test_data_def test_iv_def BlockSize_def)
  have h6: "decrypt_loop (DecryptCipher test_data) (DecryptIV test_data) ?c =
      Inr ([3, 2, 1, 9] @ [0xA1, 0xA2, 0xA3, 0xA4, 0xA5, 0xA6, 0xA7, 0xA8],
           [13, 14, 15, 16, 20, 25, 33, 33, 137, 50, 154, 5, 169, 22, 186, 105])"
    using test_decrypt_body by (simp add: test_data_def)
  have h7: "length [0xA1, 0xA2, 0xA3, 0xA4, 0xA5, 0xA6, 0xA7, 0xA8 :: byte] = 8"
    by simp
  have h8: "\<forall>t. length t = 8 \<longrightarrow>
      test_zlib ([3, 2, 1, 9] @ t) = test_zlib ([3, 2, 1, 9] @ [0xA1, 0xA2, 0xA3, 0xA4, 0xA5, 0xA6, 0xA7, 0xA8])"
    by (simp add: test_zlib_def)
  have h9: "length [3, 2, 1, 9 :: byte] \<le> 11"
    by simp
  have h10: "11 < length ?c"
    by simp
  have h11: "(0::nat) < 8"
    by simp
  have orig: "map_option packets (Decode test_lib test_zlib ?b) = Some [(1, [1, 9])]"
    unfolding Decode_def Decode_head_encrypted [OF h1 h2 h3 h4 h6]
    by (simp add: decompress_def test_zlib_def SetBuffer_def ResetStream_def
        read_packetData.simps test_lib_def test_batch_simps test_session_def)
  have flipped: "?b\<lparr>stream := \<lparr>Buffer = McpeFlag # ?c[11 := ?c ! 11 XOR push_bit 0 1], Offset = 0\<rparr>\<rparr> =
      test_batch True [0xFE, 20, 25, 33, 33, 137, 50, 154, 5, 169, 22, 186, 104]"
    by (simp add: test_batch_def McpeFlag_def)
  from Decode_accepts_flipped_checksum [OF h1 h2 h3 h4 h5 h6 h7 h8 h9 h10 h11, of test_lib]
  have "map_option packets (Decode test_lib test_zlib
           (?b\<lparr>stream := \<lparr>Buffer = McpeFlag # ?c[11 := ?c ! 11 XOR push_bit 0 1], Offset = 0\<rparr>\<rparr>)) =
        map_option packets (Decode test_lib test_zlib ?b)"
    by (rule conjunct2)
  with orig flipped show ?thesis
    by (simp add: McpeFlag_def)
qed

section \<open>Properties of the session manager\<close>

lemma index_coherent_add:
  "index_coherent idx key live \<Longrightarrow> idx (key s) \<in> {None, Some s} \<Longrightarrow>
     index_coherent (idx(key s \<mapsto> s)) key (insert s live)"
  unfolding index_coherent_def
proof (intro allI)
  fix k t
  assume co: "\<forall>k s. idx k = Some s \<longleftrightarrow> s \<in> live \<and> key s = k"
    and own: "idx (key s) \<in> {None, Some s}"
  show "(idx(key s \<mapsto> s)) k = Some t \<longleftrightarrow> t \<in> insert s live \<and> key t = k"
  proof (cases "k = key s")
    case True
    have "t = s" if "t \<in> live \<and> key t = key s"
    proof -
      from that co have "idx (key s) = Some t"
        by blast
      with own show ?thesis
        by auto
    qed
    with True show ?thesis by auto
  next
    case False
    with co show ?thesis by auto
  qed
qed

lemma index_coherent_remove:
  "index_coherent idx key live \<Longrightarrow> idx (key s) \<in> {None, Some s} \<Longrightarrow>
     index_coherent (idx(key s := None)) key (live - {s})"
  unfolding index_coherent_def
proof (intro allI)
  fix k t
  assume co: "\<forall>k s. idx k = Some s \<longleftrightarrow> s \<in> live \<and> key s = k"
    and own: "idx (key s) \<in> {None, Some s}"
  show "(idx(key s := None)) k = Some t \<longleftrightarrow> t \<in> live - {s} \<and> key t = k"
  proof (cases "k = key s")
    case True
    have "t = s" if "t \<in> live \<and> key t = key s"
    proof -
      from that co have "idx (key s) = Some t"
        by blast
      with own show ?thesis
        by auto
    qed
    with True show ?thesis by auto
  next
    case False
    with co show ?thesis by auto
  qed
qed

lemma coherent_empty: "coherent NewSessionManager {}"
  by (simp add: coherent_def index_coherent_def NewSessionManager_def)

lemma coherent_add:
  "coherent m live \<Longrightarrow> keys_own m s \<Longrightarrow> coherent (AddMinecraftSession m s) (insert s live)"
  by (simp add: coherent_def keys_own_def AddMinecraftSession_def index_coherent_add)

lemma coherent_remove:
  "coherent m live \<Longrightarrow> keys_own m s \<Longrightarrow>
     \<exists>m'. RemoveMinecraftSession m (Some s) = Inr m' \<and> coherent m' (live - {s})"
  by (simp add: coherent_def keys_own_def RemoveMinecraftSession_def index_coherent_remove)

lemma coherent_run:
  "coherent m live \<Longrightarrow> admissible (m, live) cs \<Longrightarrow>
     \<exists>m' live'. manager_run (m, live) cs = Inr (m', live') \<and> coherent m' live'"
proof (induction cs arbitrary: m live)
  case Nil
  then show ?case by simp
next
  case (Cons c cs)
  show ?case
  proof (cases c)
    case (Add s)
    with Cons.prems have own: "keys_own m s"
      and adm: "admissible (AddMinecraftSession m s, insert s live) cs"
      by simp_all
    from Cons.IH [OF coherent_add [OF Cons.prems(1) own] adm] Add show ?thesis
      by simp
  next
    case (Remove so)
    show ?thesis
    proof (cases so)
      case None
      with Remove Cons show ?thesis by simp
    next
      case (Some s)
      with Remove Cons.prems have own: "keys_own m s"
        by simp
      from coherent_remove [OF Cons.prems(1) own] obtain m' where
        rm: "RemoveMinecraftSession m (Some s) = Inr m'" and co: "coherent m' (live - {s})"
        by blast
      from Remove Some Cons.prems(2) rm have adm: "admissible (m', live - {s}) cs"
        by simp
      from Cons.IH [OF co adm] Remove Some rm show ?thesis
        by simp
    qed
  qed
qed

lemma coherent_keys_distinct:
  assumes "coherent m live" "s \<in> live" "t \<in> live"
    and "GetName s = GetName t \<or> GetUUID s = GetUUID t \<or> GetXUID s = GetXUID t
         \<or> Sprint_GetSession s = Sprint_GetSession t"
  shows "s = t"
  using assms unfolding coherent_def index_coherent_def
  by (metis option.inject)

text \<open>
  C3 (as amended). From an empty manager, after any sequence of \<open>AddMinecraftSession\<close>
  and \<open>RemoveMinecraftSession\<close> calls in which each call's session has keys that are
  unused or held by that very session (and \<open>GetName()\<close> agrees with
  \<open>GetPlayer().GetName()\<close>), no call panics, every index holds exactly the live sessions
  under their keys, and no two live sessions share a key.
\<close>

theorem session_indices_coherent:
  assumes "admissible (NewSessionManager, {}) cs"
  shows "\<exists>m live. manager_run (NewSessionManager, {}) cs = Inr (m, live)
           \<and> coherent m live
           \<and> (\<forall>s\<in>live. \<forall>t\<in>live.
                 GetName s = GetName t \<or> GetUUID s = GetUUID t \<or> GetXUID s = GetXUID t
                 \<or> Sprint_GetSession s = Sprint_GetSession t \<longrightarrow> s = t)"
proof -
  from coherent_run [OF coherent_empty assms] obtain m live where
    run: "manager_run (NewSessionManager, {}) cs = Inr (m, live)" and co: "coherent m live"
    by blast
  from co have "\<forall>s\<in>live. \<forall>t\<in>live.
      GetName s = GetName t \<or> GetUUID s = GetUUID t \<or> GetXUID s = GetXUID t
      \<or> Sprint_GetSession s = Sprint_GetSession t \<longrightarrow> s = t"
    using coherent_keys_distinct by blast
  with run co show ?thesis by blast
qed

text \<open>
  C3 as stated fails: two sessions that are not logged into XBOX Live share the empty
  XUID. After adding both, the XUID index holds only the second, so the first is live
  but missing from that index.
\<close>

theorem session_indices_counterexample:
  "manager_run (NewSessionManager, {}) [Add test_alice, Add test_bob] =
     Inr (AddMinecraftSession (AddMinecraftSession NewSessionManager test_alice) test_bob,
          {test_bob, test_alice})
 \<and> \<not> coherent (AddMinecraftSession (AddMinecraftSession NewSessionManager test_alice) test_bob)
        {test_bob, test_alice}"
proof
  show "manager_run (NewSessionManager, {}) [Add test_alice, Add test_bob] =
     Inr (AddMinecraftSession (AddMinecraftSession NewSessionManager test_alice) test_bob,
          {test_bob, test_alice})"
    by simp
  let ?m = "AddMinecraftSession (AddMinecraftSession NewSessionManager test_alice) test_bob"
  have x: "xuidMap ?m [] = Some test_bob"
    by (simp add: AddMinecraftSession_def test_bob_def)
  have ne: "test_bob \<noteq> test_alice"
    by (simp add: test_bob_def test_alice_def)
  show "\<not> coherent ?m {test_bob, test_alice}"
  proof
    assume "coherent ?m {test_bob, test_alice}"
    then have "index_coherent (xuidMap ?m) GetXUID {test_bob, test_alice}"
      by (simp add: coherent_def)
    then have "xuidMap ?m [] = Some test_alice \<longleftrightarrow>
        test_alice \<in> {test_bob, test_alice} \<and> GetXUID test_alice = []"
      unfolding index_coherent_def by blast
    with x ne show False
      by (simp add: test_alice_def)
  qed
qed


theorem session_indices_coherent_witness:
  "admissible (NewSessionManager, {})
     [Add test_alice, Add test_carol, Remove None, Remove (Some test_alice), Add test_alice2]
 \<and> (\<exists>m live. manager_run (NewSessionManager, {})
        [Add test_alice, Add test_carol, Remove None, Remove (Some test_alice), Add test_alice2] =
        Inr (m, live) \<and> coherent m live)"
proof -
  have adm: "admissible (NewSessionManager, {})
     [Add test_alice, Add test_carol, Remove None, Remove (Some test_alice), Add test_alice2]"
    by (simp add: keys_own_def NewSessionManager_def AddMinecraftSession_def
        RemoveMinecraftSession_def test_alice_def test_carol_def test_alice2_def)
  from session_indices_coherent [OF adm] adm show ?thesis
    by blast
qed

section \<open>Properties of the login handler\<close>

text \<open>
  C6. A login packet whose username already belongs to a session of the manager is
  rejected silently: the handler returns false and the state is exactly the state
  before (no call on the session, the original session still filed under the name, the
  same session count).
\<close>

theorem duplicate_login_rejected:
  assumes "GetSession (manager st) (Username loginPacket) = Some original"
  shows "\<exists>st'. NewLoginHandler L LatestProtocol config (Login loginPacket) st = Inr (False, st')
           \<and> st' = st
           \<and> GetSession (manager st') (Username loginPacket) = Some original
           \<and> GetSessionCount (manager st') = GetSessionCount (manager st)"
  using assms by (simp add: NewLoginHandler_def)

lemma test_first_login_accepted:
  "\<exists>st1. test_first_login = Inr (True, st1)
     \<and> nameMap (manager st1) = [''Bob'' \<mapsto> (test_unnamed 1)\<lparr>GetName := ''Bob'',
           GetPlayer_GetName := Some ''Bob'', GetUUID := [7], GetXUID := []\<rparr>]"
  by (simp add: test_first_login_def NewLoginHandler_def test_login_def test_state_def
      GetSession_def NewSessionManager_def VerifyLoginRequest_def verify_step_def test_crypto_def
      test_token_def
      test_config_def AddMinecraftSession_def Let_def)

theorem duplicate_login_rejected_witness:
  "(\<exists>st1. test_first_login = Inr (True, st1)
      \<and> GetSessionCount (manager st1) = 1
      \<and> NewLoginHandler test_crypto 261 test_config
           (Login (test_login ''Bob'' 261 [test_token ''self'' ''self'' ''client'']))
           (st1\<lparr>the_session := test_unnamed 2, calls := []\<rparr>) =
         Inr (False, st1\<lparr>the_session := test_unnamed 2, calls := []\<rparr>)
      \<and> GetSessionCount (manager (st1\<lparr>the_session := test_unnamed 2, calls := []\<rparr>)) = 1)"
proof -
  from test_first_login_accepted obtain st1 where
    first: "test_first_login = Inr (True, st1)"
    and names: "nameMap (manager st1) = [''Bob'' \<mapsto> (test_unnamed 1)\<lparr>GetName := ''Bob'',
           GetPlayer_GetName := Some ''Bob'', GetUUID := [7], GetXUID := []\<rparr>]"
    by blast
  let ?bob = "(test_unnamed 1)\<lparr>GetName := ''Bob'',
           GetPlayer_GetName := Some ''Bob'', GetUUID := [7], GetXUID := []\<rparr>"
  let ?st2 = "st1\<lparr>the_session := test_unnamed 2, calls := []\<rparr>"
  let ?pk = "test_login ''Bob'' 261 [test_token ''self'' ''self'' ''client'']"
  have count: "GetSessionCount (manager st1) = 1"
    by (simp add: GetSessionCount_def names)
  have dup: "GetSession (manager ?st2) (Username ?pk) = Some ?bob"
    by (simp add: GetSession_def names test_login_def)
  from duplicate_login_rejected [OF dup, of test_crypto 261 test_config]
  have "NewLoginHandler test_crypto 261 test_config (Login ?pk) ?st2 = Inr (False, ?st2)"
    by simp
  with first count show ?thesis
    by (intro exI [of _ st1]) simp
qed

text \<open>
  C5 (as amended). A login packet whose username is not in use and whose protocol
  number differs from \<open>LatestProtocol\<close>: the handler returns false after exactly one call
  on the session, \<open>Kick("Outdated server.", false, true)\<close> when the client's protocol is
  greater and \<open>Kick("Outdated client.", false, true)\<close> when it is smaller, and the
  session manager is unchanged.
\<close>

theorem protocol_mismatch_kicks:
  assumes "GetSession (manager st) (Username loginPacket) = None"
    and "Protocol loginPacket \<noteq> LatestProtocol"
  shows "NewLoginHandler L LatestProtocol config (Login loginPacket) st =
           Inr (False, st\<lparr>calls := calls st @
             [Kick (if Protocol loginPacket > LatestProtocol then ''Outdated server.''
                    else ''Outdated client.'') False True]\<rparr>)
       \<and> manager (st\<lparr>calls := calls st @
             [Kick (if Protocol loginPacket > LatestProtocol then ''Outdated server.''
                    else ''Outdated client.'') False True]\<rparr>) = manager st"
  using assms by (simp add: NewLoginHandler_def)

theorem protocol_mismatch_kicks_witness:
  "NewLoginHandler test_crypto 261 test_config (Login (test_login ''Bob'' 262 []))
       (test_state NewSessionManager 1) =
     Inr (False, (test_state NewSessionManager 1)\<lparr>calls := [Kick ''Outdated server.'' False True]\<rparr>)
 \<and> NewLoginHandler test_crypto 261 test_config (Login (test_login ''Bob'' 260 []))
       (test_state NewSessionManager 1) =
     Inr (False, (test_state NewSessionManager 1)\<lparr>calls := [Kick ''Outdated client.'' False True]\<rparr>)"
proof -
  have free: "GetSession (manager (test_state NewSessionManager 1 :: string login_state)) ''Bob'' = None"
    by (simp add: GetSession_def test_state_def NewSessionManager_def)
  have u: "Username (test_login ''Bob'' p []) = ''Bob''" "Protocol (test_login ''Bob'' p []) = p" for p
    by (simp_all add: test_login_def)
  from protocol_mismatch_kicks [of "test_state NewSessionManager 1" "test_login ''Bob'' 262 []" 261
      test_crypto test_config]
    protocol_mismatch_kicks [of "test_state NewSessionManager 1" "test_login ''Bob'' 260 []" 261
      test_crypto test_config]
  show ?thesis
    using free by (simp add: u test_state_def)
qed

text \<open>
  C5 as stated fails: the duplicate-name test comes first. A packet for the name "Bob",
  already in the manager, with protocol 262 against 261: the handler returns false and
  makes no call on the session, so there is no kick.
\<close>

theorem protocol_mismatch_counterexample:
  "Protocol (test_login ''Bob'' 262 []) \<noteq> 261
 \<and> NewLoginHandler test_crypto 261 test_config (Login (test_login ''Bob'' 262 []))
       (test_state (AddMinecraftSession NewSessionManager test_bob) 9) =
     Inr (False, test_state (AddMinecraftSession NewSessionManager test_bob) 9)
 \<and> calls (test_state (AddMinecraftSession NewSessionManager test_bob) 9 :: string login_state) = []"
  by (simp add: NewLoginHandler_def test_login_def test_state_def GetSession_def
      AddMinecraftSession_def test_bob_def)

text \<open>
  C2. When \<open>VerifyLoginRequest\<close> returns \<open>successful = false\<close> for a packet that
  passed the name and protocol tests, the handler only writes a debug line and returns
  true: no \<open>Kick\<close> (no call at all) is made on the session and the manager is untouched.
\<close>

theorem failed_verification_not_kicked:
  assumes "GetSession (manager st) (Username loginPacket) = None"
    and "Protocol loginPacket = LatestProtocol"
    and "VerifyLoginRequest L (Chains loginPacket) = VReturn False authenticated pubKey"
  shows "NewLoginHandler L LatestProtocol config (Login loginPacket) st =
           Inr (True, st\<lparr>debug := debug st @
                  [(Username loginPacket, ''has joined with invalid login data.'')]\<rparr>)"
  using assms by (simp add: NewLoginHandler_def)

theorem failed_verification_not_kicked_witness:
  "VerifyLoginRequest test_crypto [test_token [] ''x'' ''client''] = VReturn False False None
 \<and> NewLoginHandler test_crypto 261 test_config
       (Login (test_login ''Bob'' 261 [test_token [] ''x'' ''client'']))
       (test_state NewSessionManager 1) =
     Inr (True, (test_state NewSessionManager 1)
                  \<lparr>debug := [(''Bob'', ''has joined with invalid login data.'')]\<rparr>)
 \<and> calls ((test_state NewSessionManager 1 :: string login_state)
             \<lparr>debug := [(''Bob'', ''has joined with invalid login data.'')]\<rparr>) = []"
proof -
  let ?pk = "test_login ''Bob'' 261 [test_token [] ''x'' ''client'']"
  have free: "GetSession (manager (test_state NewSessionManager 1 :: string login_state)) (Username ?pk) = None"
    by (simp add: GetSession_def test_state_def NewSessionManager_def)
  have proto: "Protocol ?pk = 261"
    by (simp add: test_login_def)
  have v: "VerifyLoginRequest test_crypto (Chains ?pk) = VReturn False False None"
    by (simp add: VerifyLoginRequest_def verify_step_def test_login_def test_token_def)
  from failed_verification_not_kicked [OF free proto v, of test_config] v
  show ?thesis
    by (simp add: test_login_def test_state_def)
qed

text \<open>
  C10. With an empty chain no token is processed, the verifying key text is empty, and
  when the empty text fails public-key parsing the result is
  \<open>(successful, authenticated, clientPublicKey) = (false, false, nil)\<close>.
\<close>

theorem empty_chain_rejected:
  assumes "ParsePKIXPublicKey L (DecodeString L []) = ParseError"
  shows "VerifyLoginRequest L [] = VReturn False False None"
  using assms by (simp add: VerifyLoginRequest_def)

theorem empty_chain_rejected_witness:
  "ParsePKIXPublicKey test_crypto (DecodeString test_crypto []) = ParseError
 \<and> VerifyLoginRequest test_crypto [] = VReturn False False None"
proof -
  have h: "ParsePKIXPublicKey test_crypto (DecodeString test_crypto []) = ParseError"
    by (simp add: test_crypto_def)
  from empty_chain_rejected [OF h] h show ?thesis
    by simp
qed

section \<open>Properties of chain verification\<close>






section \<open>Properties of the player tick\<close>

text \<open>
  C8 (as amended). For a player with a non-nil entity, \<open>Tick\<close> leaves the store with
  both flags of that entity cleared and nothing else changed (no other field of the
  entity, no other entity; the caller's \<open>Player\<close> struct is a different copy and is not
  touched), after sending the entity-data update when that flag was set and then one
  \<open>SendMovePlayer\<close> per viewer, whatever the movement flag was.
\<close>

theorem Tick_clears_shared_flags:
  assumes "Entity_ptr player = Some a" and "h a = Some e"
  shows "Tick player h =
           Inr (h(a \<mapsto> e\<lparr>HasEntityDataUpdate := False, HasMovementUpdate := False\<rparr>),
                (if HasEntityDataUpdate e then [BroadcastUpdatedEntityData a] else [])
                @ map (\<lambda>viewer. SendMovePlayer viewer (GetRuntimeId e) (Position e) (Rotation e)
                                   0 (OnGround e) (GetRidingId e))
                      (GetViewers e))"
proof -
  have same: "h(a \<mapsto> e) = h"
    using assms(2) by (simp add: fun_upd_idem)
  have d: "e\<lparr>HasEntityDataUpdate := False\<rparr> = e" if "\<not> HasEntityDataUpdate e"
    using that by (cases e) simp
  have m: "x\<lparr>HasMovementUpdate := False\<rparr> = x" if "\<not> HasMovementUpdate x"
    for x :: "('a, 'b) Entity"
    using that by (cases x) simp
  show ?thesis
  proof (cases "HasEntityDataUpdate e")
    case True
    show ?thesis
    proof (cases "HasMovementUpdate e")
      case True
      with \<open>HasEntityDataUpdate e\<close> assms show ?thesis
        by (simp add: Tick_def BroadcastMovement_def)
    next
      case False
      then have eq: "e\<lparr>HasEntityDataUpdate := False, HasMovementUpdate := False\<rparr> =
          e\<lparr>HasEntityDataUpdate := False\<rparr>"
        by (simp add: m)
      from False \<open>HasEntityDataUpdate e\<close> assms show ?thesis
        unfolding eq by (simp add: Tick_def BroadcastMovement_def)
    qed
  next
    case False
    show ?thesis
    proof (cases "HasMovementUpdate e")
      case True
      with False assms show ?thesis
        by (simp add: Tick_def BroadcastMovement_def d)
    next
      case no: False
      with False have eq: "e\<lparr>HasEntityDataUpdate := False, HasMovementUpdate := False\<rparr> = e"
        by (simp add: d m)
      from no False assms show ?thesis
        unfolding eq same by (simp add: Tick_def BroadcastMovement_def)
    qed
  qed
qed

text \<open>
  C8 as stated fails: the flags are not fields of the copied struct but of the entity
  it points to, which the caller shares. Before the tick the caller reads
  \<open>HasMovementUpdate\<close> as true, after it as false.
\<close>

theorem Tick_invisible_counterexample:
  "HasMovementUpdate (the ([40 \<mapsto> test_entity] 40))
 \<and> Tick test_player [40 \<mapsto> test_entity] =
     Inr ([40 \<mapsto> test_entity\<lparr>HasEntityDataUpdate := False, HasMovementUpdate := False\<rparr>],
          [BroadcastUpdatedEntityData 40,
           SendMovePlayer 11 5 (0, 7, 0) (0, 90, 90) 0 True 0,
           SendMovePlayer 12 5 (0, 7, 0) (0, 90, 90) 0 True 0])
 \<and> \<not> HasMovementUpdate
        (the ([40 \<mapsto> test_entity\<lparr>HasEntityDataUpdate := False, HasMovementUpdate := False\<rparr>] 40))"
  by (simp add: Tick_def BroadcastMovement_def test_player_def test_entity_def)

theorem Tick_clears_shared_flags_witness:
  "Tick test_player [40 \<mapsto> test_entity\<lparr>HasEntityDataUpdate := False\<rparr>] =
     Inr ([40 \<mapsto> test_entity\<lparr>HasEntityDataUpdate := False, HasMovementUpdate := False\<rparr>],
          [SendMovePlayer 11 5 (0, 7, 0) (0, 90, 90) 0 True 0,
           SendMovePlayer 12 5 (0, 7, 0) (0, 90, 90) 0 True 0])"
proof -
  let ?h = "[40 \<mapsto> test_entity\<lparr>HasEntityDataUpdate := False\<rparr>]"
  have p: "Entity_ptr test_player = Some 40"
    by (simp add: test_player_def)
  have e: "?h 40 = Some (test_entity\<lparr>HasEntityDataUpdate := False\<rparr>)"
    by simp
  from Tick_clears_shared_flags [of test_player 40 ?h "test_entity\<lparr>HasEntityDataUpdate := False\<rparr>",
      OF p e]
  show ?thesis
    by (simp add: test_entity_def)
qed

end
